theory Spec2Isabelle
  imports Main "HOL-Library.Word" "HOL-Library.Signed_Division"
begin

unbundle bit_operations_syntax

section \<open>Machine integers of the C source\<close>

text \<open>
  The C types \<open>int\<close>/\<open>int32\<close>, \<open>int64\<close> and \<open>int128\<close> are two's complement words; \<open>sint\<close>
  reads the signed value. Signed addition, subtraction, negation and multiplication wrap
  around (PostgreSQL code is built with \<open>-fwrapv\<close>), and a conversion to a narrower type
  keeps the low bits.
\<close>

type_synonym int32 = "32 word"
type_synonym int64 = "64 word"
type_synonym uint32 = "32 word"
type_synonym uint64 = "64 word"
type_synonym int128 = "128 word"

text \<open>
  C's \<open>/\<close> and \<open>%\<close> on signed integers truncate towards zero. Every divisor in the code
  below is a positive constant.
\<close>

definition c_div :: "'a::len word \<Rightarrow> 'a word \<Rightarrow> 'a word" where
  "c_div a b = word_of_int (sint a sdiv sint b)"

definition c_mod :: "'a::len word \<Rightarrow> 'a word \<Rightarrow> 'a word" where
  "c_mod a b = word_of_int (sint a smod sint b)"

text \<open>\<open>elog(ERROR, msg)\<close> leaves the function; the message is the error value.\<close>

datatype error = ERROR string

section \<open>Timestamps and intervals\<close>

type_synonym Timestamp = int64
type_synonym TimestampTz = int64
type_synonym TimeOffset = int64
type_synonym fsec_t = int32

text \<open>The struct \<open>Interval\<close>: microseconds, days and months, each signed.\<close>

record Interval =
  time :: TimeOffset
  day :: int32
  month :: int32

text \<open>
  Modelled from the spec: the macros \<open>DT_NOBEGIN\<close>, \<open>DT_NOEND\<close> and \<open>TIMESTAMP_NOT_FINITE\<close>
  come from the PostgreSQL header \<open>datatype/timestamp.h\<close>, which is not among the sources
  at hand. The two sentinel values of a TimePoint, -infinity and +infinity, are the least
  and the greatest 64-bit signed integer, as that header has them.
\<close>

definition DT_NOBEGIN :: Timestamp where
  "DT_NOBEGIN = - 9223372036854775808"

definition DT_NOEND :: Timestamp where
  "DT_NOEND = 9223372036854775807"

definition TIMESTAMP_NOT_FINITE :: "Timestamp \<Rightarrow> bool" where
  "TIMESTAMP_NOT_FINITE j = (j = DT_NOBEGIN \<or> j = DT_NOEND)"

text \<open>
  Modelled from the spec: the macros \<open>MIN_TIMESTAMP\<close>, \<open>END_TIMESTAMP\<close> and
  \<open>IS_VALID_TIMESTAMP\<close> of the same header give the representable range of a timestamp:
  from 4714-11-24 BC (inclusive) to 294277-01-01 (exclusive), in microseconds since
  2000-01-01.
\<close>

definition MIN_TIMESTAMP :: Timestamp where
  "MIN_TIMESTAMP = - 211813488000000000"

definition END_TIMESTAMP :: Timestamp where
  "END_TIMESTAMP = 9223371331200000000"

definition IS_VALID_TIMESTAMP :: "Timestamp \<Rightarrow> bool" where
  "IS_VALID_TIMESTAMP t = (sint MIN_TIMESTAMP \<le> sint t \<and> sint t < sint END_TIMESTAMP)"

text \<open>
  Modelled from the spec: \<open>USECS_PER_DAY\<close> (same header) is the number of microseconds
  of one day.
\<close>

definition USECS_PER_DAY :: int64 where
  "USECS_PER_DAY = 86400000000"

subsection \<open>Interval addition\<close>

text \<open>The macro \<open>SAMESIGN(a,b)\<close>: \<open>((a) < 0) == ((b) < 0)\<close>.\<close>

definition SAMESIGN :: "'a::len word \<Rightarrow> 'a word \<Rightarrow> bool" where
  "SAMESIGN a b = ((sint a < 0) = (sint b < 0))"

definition pg_interval_pl :: "Interval \<Rightarrow> Interval \<Rightarrow> error + Interval" where
  "pg_interval_pl span1 span2 =
     (let result_month = month span1 + month span2 in
      if SAMESIGN (month span1) (month span2) \<and> \<not> SAMESIGN result_month (month span1)
      then Inl (ERROR ''interval out of range'')
      else
        let result_day = day span1 + day span2 in
        if SAMESIGN (day span1) (day span2) \<and> \<not> SAMESIGN result_day (day span1)
        then Inl (ERROR ''interval out of range'')
        else
          let result_time = time span1 + time span2 in
          if SAMESIGN (time span1) (time span2) \<and> \<not> SAMESIGN result_time (time span1)
          then Inl (ERROR ''interval out of range'')
          else Inr \<lparr>time = result_time, day = result_day, month = result_month\<rparr>)"

subsection \<open>Adding an interval to a timestamp\<close>

text \<open>
  The fields of \<open>struct pg_tm\<close> that hold the broken-down date and time. The function below
  reads and writes \<open>tm_year\<close>, \<open>tm_mon\<close> and \<open>tm_mday\<close> only.
\<close>

record pg_tm =
  tm_sec :: int32
  tm_min :: int32
  tm_hour :: int32
  tm_mday :: int32
  tm_mon :: int32
  tm_year :: int32

text \<open>
  The date and time routines that \<open>pg_timestamp_pl_interval\<close> calls are defined outside
  the file that holds it; they are parameters of the model. \<open>timestamp2tm\<close> and
  \<open>tm2timestamp\<close> return a non-zero status when they fail, which is \<open>None\<close> here;
  \<open>j2date\<close> returns year, month and day.
\<close>

record pg_datetime =
  timestamp2tm :: "Timestamp \<Rightarrow> (pg_tm \<times> fsec_t) option"
  tm2timestamp :: "pg_tm \<Rightarrow> fsec_t \<Rightarrow> Timestamp option"
  date2j :: "int32 \<Rightarrow> int32 \<Rightarrow> int32 \<Rightarrow> int32"
  j2date :: "int32 \<Rightarrow> int32 \<times> int32 \<times> int32"

definition MONTHS_PER_YEAR :: int32 where
  "MONTHS_PER_YEAR = 12"

text \<open>
  Modelled from the spec: the macro \<open>isleap\<close> and the table \<open>day_tab\<close> are declared
  outside the sources at hand; they give the last valid day of a month of the Gregorian
  calendar, to which the day of the month is clamped.
\<close>

definition isleap :: "int32 \<Rightarrow> bool" where
  "isleap y = (c_mod y 4 = 0 \<and> (c_mod y 100 \<noteq> 0 \<or> c_mod y 400 = 0))"

definition day_tab :: "int32 list list" where
  "day_tab = [[31, 28, 31, 30, 31, 30, 31, 31, 30, 31, 30, 31, 0],
              [31, 29, 31, 30, 31, 30, 31, 31, 30, 31, 30, 31, 0]]"

definition pg_timestamp_pl_interval ::
    "pg_datetime \<Rightarrow> TimestampTz \<Rightarrow> Interval \<Rightarrow> error + TimestampTz" where
  "pg_timestamp_pl_interval lib timestamp span =
     (if TIMESTAMP_NOT_FINITE timestamp then Inr timestamp
      else
        case
          (if month span \<noteq> 0 then
             (case timestamp2tm lib timestamp of
                None \<Rightarrow> Inl (ERROR ''timestamp out of range'')
              | Some (tm, fsec) \<Rightarrow>
                  let tm = tm\<lparr>tm_mon := tm_mon tm + month span\<rparr>;
                      tm =
                        (if sint (tm_mon tm) > sint MONTHS_PER_YEAR then
                           tm\<lparr>tm_year := tm_year tm + c_div (tm_mon tm - 1) MONTHS_PER_YEAR,
                              tm_mon := c_mod (tm_mon tm - 1) MONTHS_PER_YEAR + 1\<rparr>
                         else if sint (tm_mon tm) < 1 then
                           tm\<lparr>tm_year := tm_year tm + (c_div (tm_mon tm) MONTHS_PER_YEAR - 1),
                              tm_mon := c_mod (tm_mon tm) MONTHS_PER_YEAR + MONTHS_PER_YEAR\<rparr>
                         else tm);
                      last_day =
                        day_tab ! (if isleap (tm_year tm) then 1 else 0) ! unat (tm_mon tm - 1);
                      tm = (if sint (tm_mday tm) > sint last_day
                            then tm\<lparr>tm_mday := last_day\<rparr> else tm)
                  in (case tm2timestamp lib tm fsec of
                        None \<Rightarrow> Inl (ERROR ''timestamp out of range'')
                      | Some ts \<Rightarrow> Inr ts))
           else Inr timestamp)
        of
          Inl e \<Rightarrow> Inl e
        | Inr timestamp \<Rightarrow>
            (case
               (if day span \<noteq> 0 then
                  (case timestamp2tm lib timestamp of
                     None \<Rightarrow> Inl (ERROR ''timestamp out of range'')
                   | Some (tm, fsec) \<Rightarrow>
                       let julian = date2j lib (tm_year tm) (tm_mon tm) (tm_mday tm) + day span;
                           (y, m, d) = j2date lib julian;
                           tm = tm\<lparr>tm_year := y, tm_mon := m, tm_mday := d\<rparr>
                       in (case tm2timestamp lib tm fsec of
                             None \<Rightarrow> Inl (ERROR ''timestamp out of range'')
                           | Some ts \<Rightarrow> Inr ts))
                else Inr timestamp)
             of
               Inl e \<Rightarrow> Inl e
             | Inr timestamp \<Rightarrow>
                 let timestamp = timestamp + time span in
                 if \<not> IS_VALID_TIMESTAMP timestamp
                 then Inl (ERROR ''timestamp out of range'')
                 else Inr timestamp))"

subsection \<open>Subtracting two timestamps\<close>

text \<open>
  Modelled from the spec: the macro \<open>TMODULO(t,q,u)\<close> of \<open>datatype/timestamp.h\<close> (not among
  the sources at hand) splits \<open>t\<close> into the whole multiple \<open>q\<close> of \<open>u\<close> and the rest, which
  stays in \<open>t\<close>: \<open>q = t / u; if (q != 0) t -= q * u\<close>. The result is the pair of the new
  \<open>t\<close> and \<open>q\<close>.
\<close>

definition TMODULO :: "int64 \<Rightarrow> int64 \<Rightarrow> int64 \<times> int64" where
  "TMODULO t u = (let q = c_div t u in (if q \<noteq> 0 then t - q * u else t, q))"

text \<open>
  \<open>result->day += wholeday\<close> adds an \<open>int64\<close> to an \<open>int32\<close> field: the sum is formed in 64
  bits and cut to the low 32 bits.
\<close>

definition pg_interval_justify_hours :: "Interval \<Rightarrow> Interval" where
  "pg_interval_justify_hours span =
     (let (result_time, wholeday) = TMODULO (time span) USECS_PER_DAY;
          result_day = (ucast ((scast (day span) :: int64) + wholeday) :: int32)
      in if 0 < sint result_day \<and> sint result_time < 0 then
           \<lparr>time = result_time + USECS_PER_DAY, day = result_day - 1, month = month span\<rparr>
         else if sint result_day < 0 \<and> 0 < sint result_time then
           \<lparr>time = result_time - USECS_PER_DAY, day = result_day + 1, month = month span\<rparr>
         else \<lparr>time = result_time, day = result_day, month = month span\<rparr>)"

definition pg_timestamp_mi :: "TimestampTz \<Rightarrow> TimestampTz \<Rightarrow> error + Interval" where
  "pg_timestamp_mi dt1 dt2 =
     (if TIMESTAMP_NOT_FINITE dt1 \<or> TIMESTAMP_NOT_FINITE dt2
      then Inl (ERROR ''cannot subtract infinite timestamps'')
      else Inr (pg_interval_justify_hours \<lparr>time = dt1 - dt2, day = 0, month = 0\<rparr>))"

subsection \<open>Comparing intervals\<close>

definition interval_cmp_value :: "Interval \<Rightarrow> int128" where
  "interval_cmp_value interval =
     (let dayfraction = c_mod (time interval) USECS_PER_DAY;
          days = c_div (time interval) USECS_PER_DAY;
          days = days + scast (month interval) * 30;
          days = days + scast (day interval);
          span = (scast dayfraction :: int128);
          span = span + scast days * scast USECS_PER_DAY
      in span)"

text \<open>
  Modelled from the spec: \<open>int128_compare\<close> of PostgreSQL's \<open>common/int128.h\<close> (not among
  the sources at hand) compares two 128-bit signed integers and returns -1, 0 or 1.
\<close>

definition int128_compare :: "int128 \<Rightarrow> int128 \<Rightarrow> int32" where
  "int128_compare x y = (if sint x < sint y then - 1 else if sint y < sint x then 1 else 0)"

definition pg_interval_cmp :: "Interval \<Rightarrow> Interval \<Rightarrow> int32" where
  "pg_interval_cmp interval1 interval2 =
     (let span1 = interval_cmp_value interval1;
          span2 = interval_cmp_value interval2
      in int128_compare span1 span2)"

section \<open>Rounding a timestamp to a precision\<close>

definition MAX_TIMESTAMP_PRECISION :: int32 where
  "MAX_TIMESTAMP_PRECISION = 6"

definition TimestampScales :: "int64 list" where
  "TimestampScales = [1000000, 100000, 10000, 1000, 100, 10, 1]"

definition TimestampOffsets :: "int64 list" where
  "TimestampOffsets = [500000, 50000, 5000, 500, 50, 5, 0]"

text \<open>
  The timestamp \<open>*time\<close> (here \<open>ts\<close>) is passed by pointer and updated in place, and
  \<open>error\<close> is a pointer that may be null (\<open>None\<close>). The model returns the result of the function together with the
  timestamp and the flag behind \<open>error\<close> as they are afterwards.
\<close>

definition AdjustTimestampForTypmodError ::
    "Timestamp \<Rightarrow> int32 \<Rightarrow> bool option \<Rightarrow> error + (bool \<times> Timestamp \<times> bool option)" where
  "AdjustTimestampForTypmodError ts typmod error =
     (if \<not> TIMESTAMP_NOT_FINITE ts \<and> typmod \<noteq> - 1 \<and> typmod \<noteq> MAX_TIMESTAMP_PRECISION
      then
        if sint typmod < 0 \<or> sint MAX_TIMESTAMP_PRECISION < sint typmod then
          (case error of
             Some _ \<Rightarrow> Inr (False, ts, Some True)
           | None \<Rightarrow> Inl (ERROR ''timestamp(%d) precision must be between %d and %d''))
        else if 0 \<le> sint ts then
          Inr (True,
               c_div (ts + TimestampOffsets ! unat typmod) (TimestampScales ! unat typmod)
                 * (TimestampScales ! unat typmod),
               error)
        else
          Inr (True,
               - (c_div ((- ts) + TimestampOffsets ! unat typmod) (TimestampScales ! unat typmod)
                    * (TimestampScales ! unat typmod)),
               error)
      else Inr (True, ts, error))"

definition AdjustTimestampForTypmod :: "Timestamp \<Rightarrow> int32 \<Rightarrow> error + Timestamp" where
  "AdjustTimestampForTypmod ts typmod =
     (case AdjustTimestampForTypmodError ts typmod None of
        Inl e \<Rightarrow> Inl e
      | Inr (_, ts', _) \<Rightarrow> Inr ts')"

section \<open>Hash functions\<close>

text \<open>The macro \<open>rot(x,k)\<close> rotates a 32-bit value left by \<open>k\<close> bits.\<close>

definition rot :: "uint32 \<Rightarrow> nat \<Rightarrow> uint32" where
  "rot x k = push_bit k x OR drop_bit (32 - k) x"

text \<open>The macros \<open>mix(a,b,c)\<close> and \<open>final(a,b,c)\<close> update their three arguments in place.\<close>

definition mix :: "uint32 \<times> uint32 \<times> uint32 \<Rightarrow> uint32 \<times> uint32 \<times> uint32" where
  "mix abc =
     (let (a, b, c) = abc;
          a = a - c; a = a XOR rot c 4; c = c + b;
          b = b - a; b = b XOR rot a 6; a = a + c;
          c = c - b; c = c XOR rot b 8; b = b + a;
          a = a - c; a = a XOR rot c 16; c = c + b;
          b = b - a; b = b XOR rot a 19; a = a + c;
          c = c - b; c = c XOR rot b 4; b = b + a
      in (a, b, c))"

definition final :: "uint32 \<times> uint32 \<times> uint32 \<Rightarrow> uint32 \<times> uint32 \<times> uint32" where
  "final abc =
     (let (a, b, c) = abc;
          c = c XOR b; c = c - rot b 14;
          a = a XOR c; a = a - rot c 11;
          b = b XOR a; b = b - rot a 25;
          c = c XOR b; c = c - rot b 16;
          a = a XOR c; a = a - rot c 4;
          b = b XOR a; b = b - rot a 14;
          c = c XOR b; c = c - rot b 24
      in (a, b, c))"

definition hash_bytes_uint32 :: "uint32 \<Rightarrow> uint32" where
  "hash_bytes_uint32 k =
     (let a = 0x9e3779b9 + 4 + 3923095; b = a; c = a;
          a = a + k;
          (a, b, c) = final (a, b, c)
      in c)"

definition hash_bytes_uint32_extended :: "uint32 \<Rightarrow> uint64 \<Rightarrow> uint64" where
  "hash_bytes_uint32_extended k seed =
     (let a = 0x9e3779b9 + 4 + 3923095; b = a; c = a;
          (a, b, c) =
            (if seed \<noteq> 0
             then mix (a + ucast (drop_bit 32 seed), b + ucast seed, c)
             else (a, b, c));
          a = a + k;
          (a, b, c) = final (a, b, c)
      in push_bit 32 (ucast b :: uint64) OR ucast c)"

text \<open>
  \<open>hash_uint32\<close> and \<open>hash_uint32_extended\<close> are declared outside the file that holds
  \<open>pg_hashint8\<close>; they are parameters. \<open>val >> 32\<close> on a signed 64-bit value is the
  arithmetic shift.
\<close>

definition pg_hashint8 :: "(uint32 \<Rightarrow> uint32) \<Rightarrow> int64 \<Rightarrow> uint32" where
  "pg_hashint8 hash_uint32 val =
     (let lohalf = (ucast val :: uint32);
          hihalf = (ucast (signed_drop_bit 32 val) :: uint32);
          lohalf = lohalf XOR (if 0 \<le> sint val then hihalf else NOT hihalf)
      in hash_uint32 lohalf)"

definition pg_hashint8extended :: "(uint32 \<Rightarrow> uint64 \<Rightarrow> uint64) \<Rightarrow> int64 \<Rightarrow> uint64 \<Rightarrow> uint64" where
  "pg_hashint8extended hash_uint32_extended val seed =
     (let lohalf = (ucast val :: uint32);
          hihalf = (ucast (signed_drop_bit 32 val) :: uint32);
          lohalf = lohalf XOR (if 0 \<le> sint val then hihalf else NOT hihalf)
      in hash_uint32_extended lohalf seed)"

subsection \<open>Hashing a float8\<close>

text \<open>
  A \<open>float8\<close> is an IEEE 754 binary64 value, modelled by its 64 bits: one sign bit, eleven
  exponent bits, 52 fraction bits. The comparison \<open>==\<close> and \<open>isnan\<close> of C are read off
  the bits: a NaN has all exponent bits set and a fraction that is not zero; a zero has
  all bits but the sign clear; two values are equal when neither is a NaN and they have
  the same bits or are both zeros.
\<close>

type_synonym float8 = "64 word"

definition float8_isnan :: "float8 \<Rightarrow> bool" where
  "float8_isnan x =
     (x AND 0x7FF0000000000000 = 0x7FF0000000000000 \<and> x AND 0x000FFFFFFFFFFFFF \<noteq> 0)"

definition float8_iszero :: "float8 \<Rightarrow> bool" where
  "float8_iszero x = (x AND 0x7FFFFFFFFFFFFFFF = 0)"

definition float8_eq :: "float8 \<Rightarrow> float8 \<Rightarrow> bool" where
  "float8_eq x y =
     (\<not> float8_isnan x \<and> \<not> float8_isnan y \<and> (x = y \<or> (float8_iszero x \<and> float8_iszero y)))"

text \<open>The eight bytes of the value in memory, lowest first.\<close>

definition float8_bytes :: "float8 \<Rightarrow> 8 word list" where
  "float8_bytes x = map (\<lambda>i. ucast (drop_bit (8 * i) x)) [0 ..< 8]"

text \<open>
  \<open>hash_any\<close> (bytes and their number) and \<open>get_float8_nan\<close> (the standard NaN) are
  declared outside the file that holds \<open>pg_hashfloat8\<close>; they are parameters.
\<close>

definition pg_hashfloat8 :: "(8 word list \<Rightarrow> nat \<Rightarrow> uint32) \<Rightarrow> float8 \<Rightarrow> float8 \<Rightarrow> uint32" where
  "pg_hashfloat8 hash_any get_float8_nan key =
     (if float8_eq key 0 then 0
      else
        let key = (if float8_isnan key then get_float8_nan else key)
        in hash_any (float8_bytes key) 8)"

section \<open>Notions of the specification\<close>

text \<open>A mathematical sum fits the signed type of width \<open>n\<close>.\<close>

definition fits_signed :: "nat \<Rightarrow> int \<Rightarrow> bool" where
  "fits_signed n k = (- (2 ^ (n - 1)) \<le> k \<and> k < 2 ^ (n - 1))"

text \<open>
  The exact value of an interval on the linear scale: a month is 30 days, a day is
  86400000000 microseconds.
\<close>

definition interval_linear_value :: "Interval \<Rightarrow> int" where
  "interval_linear_value i = (sint (month i) * 30 + sint (day i)) * 86400000000 + sint (time i)"

text \<open>
  Rounding \<open>t\<close> to a multiple of \<open>s\<close>, halves away from zero.
\<close>

definition round_half_away :: "int \<Rightarrow> int \<Rightarrow> int" where
  "round_half_away s t = sgn t * (((\<bar>t\<bar> + s div 2) div s) * s)"

text \<open>
  The value that the two rounding branches of \<open>AdjustTimestampForTypmodError\<close> store, for
  a scale \<open>s\<close> and an offset \<open>off\<close> of the two tables.
\<close>

definition adjust_value :: "int64 \<Rightarrow> int64 \<Rightarrow> int64 \<Rightarrow> int64" where
  "adjust_value s off ts =
     (if 0 \<le> sint ts then c_div (ts + off) s * s else - (c_div (- ts + off) s * s))"

section \<open>Properties\<close>

subsection \<open>Signed values of word arithmetic\<close>

lemma sint_add_fits:
  fixes a b :: "'a::len word"
  assumes "fits_signed LENGTH('a) (sint a + sint b)"
  shows "sint (a + b) = sint a + sint b"
  using assms
  by (simp add: fits_signed_def sint_word_ariths signed_take_bit_int_eq_self)

lemma stb_mod:
  "signed_take_bit n (k::int) = (k + 2 ^ n) mod 2 ^ Suc n - 2 ^ n"
  by (simp add: signed_take_bit_eq_take_bit_shift take_bit_eq_mod)

lemma stb_wrap:
  fixes k :: int
  assumes "- (2 * 2 ^ n) \<le> k" and "k < 2 * 2 ^ n"
  shows "signed_take_bit n k =
    (if 2 ^ n \<le> k then k - 2 * 2 ^ n else if k < - (2 ^ n) then k + 2 * 2 ^ n else k)"
proof -
  consider (hi) "2 ^ n \<le> k" | (lo) "k < - (2 ^ n)" | (mid) "- (2 ^ n) \<le> k" "k < 2 ^ n"
    by linarith
  then show ?thesis
  proof cases
    case hi
    have "(k + 2 ^ n) mod 2 ^ Suc n = k + 2 ^ n - 2 * 2 ^ n"
      by (rule int_mod_pos_eq [where q = 1]) (use hi assms in simp_all)
    with hi show ?thesis by (simp add: stb_mod)
  next
    case lo
    have "(k + 2 ^ n) mod 2 ^ Suc n = k + 2 ^ n + 2 * 2 ^ n"
      by (rule int_mod_pos_eq [where q = "- 1"]) (use lo assms in simp_all)
    moreover have "\<not> 2 ^ n \<le> k"
      using lo by (smt (verit) zero_less_power)
    ultimately show ?thesis using lo by (simp add: stb_mod)
  next
    case mid
    then show ?thesis by (simp add: signed_take_bit_int_eq_self)
  qed
qed

lemma SAMESIGN_overflow:
  fixes a b :: "'a::len word"
  shows "(SAMESIGN a b \<and> \<not> SAMESIGN (a + b) a) = (\<not> fits_signed LENGTH('a) (sint a + sint b))"
proof -
  define n where "n = LENGTH('a) - 1"
  define p :: int where "p = 2 ^ n"
  have ra: "- p \<le> sint a" "sint a < p"
    using sint_ge [of a] sint_lt [of a] by (simp_all add: n_def p_def)
  have rb: "- p \<le> sint b" "sint b < p"
    using sint_ge [of b] sint_lt [of b] by (simp_all add: n_def p_def)
  have "sint (a + b) = signed_take_bit n (sint a + sint b)"
    by (simp add: sint_word_ariths n_def)
  also have "\<dots> = (if p \<le> sint a + sint b then sint a + sint b - 2 * p
       else if sint a + sint b < - p then sint a + sint b + 2 * p else sint a + sint b)"
    unfolding p_def by (rule stb_wrap) (use ra rb in \<open>simp_all add: p_def\<close>)
  finally have s: "sint (a + b) = (if p \<le> sint a + sint b then sint a + sint b - 2 * p
       else if sint a + sint b < - p then sint a + sint b + 2 * p else sint a + sint b)" .
  have f: "fits_signed LENGTH('a) (sint a + sint b) = (- p \<le> sint a + sint b \<and> sint a + sint b < p)"
    by (simp add: fits_signed_def p_def n_def)
  show ?thesis
    unfolding SAMESIGN_def f s using ra rb by (auto split: if_splits)
qed

subsection \<open>Interval addition\<close>

text \<open>
  C7. \<open>pg_interval_pl\<close> returns exactly when the mathematical sum of each pair of
  components fits its type (32 bits for months and days, 64 bits for the microseconds),
  and the components of the result are then these sums; it raises "interval out of range"
  exactly when one of the sums does not fit.
\<close>

theorem pg_interval_pl_componentwise:
  "(case pg_interval_pl span1 span2 of
      Inr result \<Rightarrow>
        fits_signed 32 (sint (month span1) + sint (month span2)) \<and>
        fits_signed 32 (sint (day span1) + sint (day span2)) \<and>
        fits_signed 64 (sint (time span1) + sint (time span2)) \<and>
        sint (month result) = sint (month span1) + sint (month span2) \<and>
        sint (day result) = sint (day span1) + sint (day span2) \<and>
        sint (time result) = sint (time span1) + sint (time span2)
    | Inl e \<Rightarrow>
        e = ERROR ''interval out of range'' \<and>
        \<not> (fits_signed 32 (sint (month span1) + sint (month span2)) \<and>
           fits_signed 32 (sint (day span1) + sint (day span2)) \<and>
           fits_signed 64 (sint (time span1) + sint (time span2))))"
proof -
  have m: "(SAMESIGN (month span1) (month span2) \<and> \<not> SAMESIGN (month span1 + month span2) (month span1))
      = (\<not> fits_signed 32 (sint (month span1) + sint (month span2)))"
    using SAMESIGN_overflow [of "month span1" "month span2"] by simp
  have d: "(SAMESIGN (day span1) (day span2) \<and> \<not> SAMESIGN (day span1 + day span2) (day span1))
      = (\<not> fits_signed 32 (sint (day span1) + sint (day span2)))"
    using SAMESIGN_overflow [of "day span1" "day span2"] by simp
  have t: "(SAMESIGN (time span1) (time span2) \<and> \<not> SAMESIGN (time span1 + time span2) (time span1))
      = (\<not> fits_signed 64 (sint (time span1) + sint (time span2)))"
    using SAMESIGN_overflow [of "time span1" "time span2"] by simp
  show ?thesis
    unfolding pg_interval_pl_def Let_def m d t
    using sint_add_fits [of "month span1" "month span2"]
      sint_add_fits [of "day span1" "day span2"]
      sint_add_fits [of "time span1" "time span2"]
    by simp
qed

theorem pg_interval_pl_componentwise_witness:
  "pg_interval_pl \<lparr>time = 5, day = - 3, month = 1\<rparr> \<lparr>time = 7, day = 1, month = 2\<rparr>
     = Inr \<lparr>time = 12, day = - 2, month = 3\<rparr> \<and>
   fits_signed 32 (sint (- 3 :: int32) + sint (1 :: int32)) \<and>
   pg_interval_pl \<lparr>time = 5, day = 2147483647, month = 1\<rparr> \<lparr>time = 7, day = 1, month = 2\<rparr>
     = Inl (ERROR ''interval out of range'') \<and>
   \<not> fits_signed 32 (sint (2147483647 :: int32) + sint (1 :: int32))"
  using pg_interval_pl_componentwise
      [of "\<lparr>time = 5, day = - 3, month = 1\<rparr>" "\<lparr>time = 7, day = 1, month = 2\<rparr>"]
    pg_interval_pl_componentwise
      [of "\<lparr>time = 5, day = 2147483647, month = 1\<rparr>" "\<lparr>time = 7, day = 1, month = 2\<rparr>"]
  by (simp add: pg_interval_pl_def SAMESIGN_def fits_signed_def)

subsection \<open>The float hash\<close>

lemma float8_iszero_not_nan:
  assumes "float8_iszero key"
  shows "\<not> float8_isnan key"
proof -
  have "key AND 0x7FF0000000000000 = (key AND 0x7FFFFFFFFFFFFFFF) AND 0x7FF0000000000000"
    by (simp add: and.assoc)
  also have "\<dots> = 0"
    using assms by (simp add: float8_iszero_def)
  finally show ?thesis
    by (simp add: float8_isnan_def)
qed

lemma float8_eq_zero: "float8_eq key 0 = float8_iszero key"
  using float8_iszero_not_nan [of key] float8_iszero_not_nan [of 0]
  by (auto simp: float8_eq_def) (simp_all add: float8_iszero_def)

lemma and_single_bit:
  fixes x :: "'a::len word"
  shows "x AND push_bit k 1 = (if bit x k then push_bit k 1 else 0)"
  by (rule bit_word_eqI) (auto simp: bit_simps)

lemma split_single_bit:
  fixes x :: "'a::len word"
  shows "x = (x AND NOT (push_bit k 1)) OR (x AND push_bit k 1)"
  by (rule bit_word_eqI) (auto simp: bit_simps)

lemma float8_iszero_iff: "float8_iszero x = (x = 0 \<or> x = 0x8000000000000000)"
proof
  assume "float8_iszero x"
  then have z: "x AND 0x7FFFFFFFFFFFFFFF = 0"
    by (simp add: float8_iszero_def)
  have e: "NOT (0x8000000000000000 :: 64 word) = 0x7FFFFFFFFFFFFFFF"
    by (rule signed_word_eqI) simp
  have e': "(push_bit 63 1 :: 64 word) = 0x8000000000000000"
    by simp
  have "x = (x AND 0x7FFFFFFFFFFFFFFF) OR (x AND 0x8000000000000000)"
    using split_single_bit [of x 63] unfolding e' e .
  then have "x = x AND 0x8000000000000000"
    using z by simp
  moreover have "x AND 0x8000000000000000 = (if bit x 63 then 0x8000000000000000 else 0)"
    using and_single_bit [of x 63] by simp
  ultimately show "x = 0 \<or> x = 0x8000000000000000"
    by (metis (full_types))
next
  assume "x = 0 \<or> x = 0x8000000000000000"
  then show "float8_iszero x"
    by (auto simp: float8_iszero_def)
qed

text \<open>
  C8, as amended. \<open>pg_hashfloat8\<close> returns 0 for both zeros without hashing them,
  the hash of the bytes of the standard NaN for every NaN, and the hash of its own bytes
  for every other value. So two floats that are equal as IEEE values (also -0.0 and 0.0),
  or that are both NaN with any bits, have the same hash, for every \<open>hash_any\<close>.
\<close>

theorem pg_hashfloat8_normalizes:
  "pg_hashfloat8 hash_any get_float8_nan key =
     (if float8_iszero key then 0
      else if float8_isnan key then hash_any (float8_bytes get_float8_nan) 8
      else hash_any (float8_bytes key) 8) \<and>
   (float8_eq a b \<or> (float8_isnan a \<and> float8_isnan b) \<longrightarrow>
      pg_hashfloat8 hash_any get_float8_nan a = pg_hashfloat8 hash_any get_float8_nan b)"
proof -
  have alt: "pg_hashfloat8 hash_any get_float8_nan k =
      (if float8_iszero k then 0
       else if float8_isnan k then hash_any (float8_bytes get_float8_nan) 8
       else hash_any (float8_bytes k) 8)" for k
    by (simp add: pg_hashfloat8_def float8_eq_zero)
  have eq: "pg_hashfloat8 hash_any get_float8_nan a = pg_hashfloat8 hash_any get_float8_nan b"
    if "float8_eq a b \<or> (float8_isnan a \<and> float8_isnan b)"
    using that
  proof
    assume "float8_eq a b"
    then have "a = b \<or> (float8_iszero a \<and> float8_iszero b)"
      by (simp add: float8_eq_def)
    then show ?thesis
      by (auto simp: alt)
  next
    assume n: "float8_isnan a \<and> float8_isnan b"
    then have "\<not> float8_iszero a" "\<not> float8_iszero b"
      using float8_iszero_not_nan by blast+
    with n show ?thesis
      by (simp add: alt)
  qed
  show ?thesis
    using alt [of key] eq by blast
qed

theorem pg_hashfloat8_normalizes_witness:
  "\<forall>hash_any get_float8_nan.
     float8_eq 0x8000000000000000 0 \<and>
     pg_hashfloat8 hash_any get_float8_nan 0x8000000000000000 = 0 \<and>
     pg_hashfloat8 hash_any get_float8_nan 0 = 0 \<and>
     float8_isnan 0x7FF8000000000000 \<and> float8_isnan 0xFFF0000000000001 \<and>
     pg_hashfloat8 hash_any get_float8_nan 0x7FF8000000000000
       = hash_any (float8_bytes get_float8_nan) 8 \<and>
     pg_hashfloat8 hash_any get_float8_nan 0xFFF0000000000001
       = pg_hashfloat8 hash_any get_float8_nan 0x7FF8000000000000 \<and>
     pg_hashfloat8 hash_any get_float8_nan 0x3FF0000000000000
       = hash_any (float8_bytes 0x3FF0000000000000) 8"
proof (intro allI)
  fix hash_any :: "8 word list \<Rightarrow> nat \<Rightarrow> uint32" and get_float8_nan :: float8
  have z: "float8_eq 0x8000000000000000 0"
    by (simp add: float8_eq_def float8_isnan_def float8_iszero_def)
  have c: "float8_iszero 0x8000000000000000" "float8_iszero 0"
      "\<not> float8_iszero 0x7FF8000000000000" "\<not> float8_iszero 0x3FF0000000000000"
    by (simp_all add: float8_iszero_def)
  have n: "float8_isnan 0x7FF8000000000000" "float8_isnan 0xFFF0000000000001"
      "\<not> float8_isnan 0x3FF0000000000000"
    by (simp_all add: float8_isnan_def)
  have t1: "pg_hashfloat8 hash_any get_float8_nan 0x8000000000000000 = 0"
    using pg_hashfloat8_normalizes [of hash_any get_float8_nan "0x8000000000000000"] c
    by (simp only: if_True)
  have t2: "pg_hashfloat8 hash_any get_float8_nan 0 = 0"
    using pg_hashfloat8_normalizes [of hash_any get_float8_nan 0] c
    by (simp only: if_True)
  have t3: "pg_hashfloat8 hash_any get_float8_nan 0x7FF8000000000000
       = hash_any (float8_bytes get_float8_nan) 8"
    using pg_hashfloat8_normalizes [of hash_any get_float8_nan "0x7FF8000000000000"] c n
    by (simp only: if_True if_False)
  have t4: "pg_hashfloat8 hash_any get_float8_nan 0xFFF0000000000001
       = pg_hashfloat8 hash_any get_float8_nan 0x7FF8000000000000"
    using pg_hashfloat8_normalizes
      [of hash_any get_float8_nan 0 "0xFFF0000000000001" "0x7FF8000000000000"] n
    by blast
  have t5: "pg_hashfloat8 hash_any get_float8_nan 0x3FF0000000000000
       = hash_any (float8_bytes 0x3FF0000000000000) 8"
    using pg_hashfloat8_normalizes [of hash_any get_float8_nan "0x3FF0000000000000"] c n
    by (simp only: if_True if_False)
  show "float8_eq 0x8000000000000000 0 \<and>
     pg_hashfloat8 hash_any get_float8_nan 0x8000000000000000 = 0 \<and>
     pg_hashfloat8 hash_any get_float8_nan 0 = 0 \<and>
     float8_isnan 0x7FF8000000000000 \<and> float8_isnan 0xFFF0000000000001 \<and>
     pg_hashfloat8 hash_any get_float8_nan 0x7FF8000000000000
       = hash_any (float8_bytes get_float8_nan) 8 \<and>
     pg_hashfloat8 hash_any get_float8_nan 0xFFF0000000000001
       = pg_hashfloat8 hash_any get_float8_nan 0x7FF8000000000000 \<and>
     pg_hashfloat8 hash_any get_float8_nan 0x3FF0000000000000
       = hash_any (float8_bytes 0x3FF0000000000000) 8"
    using z n t1 t2 t3 t4 t5 by blast
qed

text \<open>
  C8 as stated fails for the zeros: -0.0 is not turned into 0.0 and hashed. The result for
  it is 0 whatever \<open>hash_any\<close> gives for the bytes of 0.0.
\<close>

theorem pg_hashfloat8_zero_not_hashed:
  "\<not> (\<forall>hash_any get_float8_nan.
        pg_hashfloat8 hash_any get_float8_nan 0x8000000000000000
          = hash_any (float8_bytes 0) 8)"
proof
  assume a: "\<forall>hash_any get_float8_nan.
        pg_hashfloat8 hash_any get_float8_nan 0x8000000000000000
          = hash_any (float8_bytes 0) 8"
  have "pg_hashfloat8 (\<lambda>bytes n. 1) 0x7FF8000000000000 0x8000000000000000 = 0"
    by (simp add: pg_hashfloat8_def float8_eq_def float8_isnan_def float8_iszero_def)
  moreover have "pg_hashfloat8 (\<lambda>bytes n. 1) 0x7FF8000000000000 0x8000000000000000 = 1"
    using a by blast
  ultimately show False by simp
qed

subsection \<open>The 64-bit integer hash\<close>

lemma sint_word_of_int_fits:
  assumes "fits_signed LENGTH('a) k"
  shows "sint (word_of_int k :: 'a::len word) = k"
  using assms by (simp add: fits_signed_def sint_sbintrunc' signed_take_bit_int_eq_self)

lemma hashint8_fold:
  fixes val :: int64
  assumes "fits_signed 32 (sint val)"
  shows "(ucast val :: uint32) XOR
      (if 0 \<le> sint val then ucast (signed_drop_bit 32 val) else NOT (ucast (signed_drop_bit 32 val)))
     = ucast val"
proof -
  have r: "- 2147483648 \<le> sint val" "sint val < 2147483648"
    using assms by (simp_all add: fits_signed_def)
  have s: "sint (signed_drop_bit 32 val) = sint val div 4294967296"
    by (simp add: sint_signed_drop_bit_eq drop_bit_eq_div)
  show ?thesis
  proof (cases "0 \<le> sint val")
    case True
    then have "sint val div 4294967296 = 0"
      using r by simp
    then have "sint (signed_drop_bit 32 val) = sint (0 :: int64)"
      using s by simp
    then have "signed_drop_bit 32 val = 0"
      by (rule signed_word_eqI)
    with True show ?thesis by simp
  next
    case False
    then have "sint val div 4294967296 = - 1"
      using r by (intro int_div_pos_eq [where r = "sint val + 4294967296"]) simp_all
    then have "sint (signed_drop_bit 32 val) = sint (- 1 :: int64)"
      using s by simp
    then have "signed_drop_bit 32 val = - 1"
      by (rule signed_word_eqI)
    moreover have "(ucast (- 1 :: int64) :: uint32) = - 1"
      by (rule bit_word_eqI) (simp add: bit_simps)
    ultimately show ?thesis using False by simp
  qed
qed

lemma ucast_down_sint:
  fixes val :: int64
  assumes "fits_signed 32 (sint val)"
  shows "sint (ucast val :: uint32) = sint val"
proof -
  have "(ucast val :: uint32) = scast val"
    by (rule down_cast_same [THEN fun_cong]) (simp add: is_down)
  also have "\<dots> = word_of_int (sint val)"
    by (rule scast_eq)
  finally have e: "(ucast val :: uint32) = word_of_int (sint val)" .
  have "sint (word_of_int (sint val) :: uint32) = sint val"
    by (rule sint_word_of_int_fits) (use assms in simp)
  then show ?thesis
    by (simp only: e)
qed

text \<open>
  C10. For a 64-bit value in the range of 32-bit signed integers, \<open>pg_hashint8\<close> passes
  the low 32 bits of the value unchanged to the 32-bit hash, these bits are the 32-bit
  integer of the same value, and \<open>pg_hashint8extended\<close> passes the same folded input to
  its seeded hash.
\<close>

theorem pg_hashint8_int32:
  assumes "fits_signed 32 (sint val)"
  shows "pg_hashint8 hash_uint32 val = hash_uint32 (ucast val) \<and>
    pg_hashint8extended hash_uint32_extended val seed = hash_uint32_extended (ucast val) seed \<and>
    sint (ucast val :: uint32) = sint val"
  unfolding pg_hashint8_def pg_hashint8extended_def Let_def hashint8_fold [OF assms]
  using ucast_down_sint [OF assms] by blast

theorem pg_hashint8_int32_witness:
  "fits_signed 32 (sint (- 5 :: int64)) \<and>
   pg_hashint8 hash_bytes_uint32 (- 5) = hash_bytes_uint32 (- 5) \<and>
   pg_hashint8extended hash_bytes_uint32_extended (- 5) 7 = hash_bytes_uint32_extended (- 5) 7"
proof -
  have f: "fits_signed 32 (sint (- 5 :: int64))"
    by (simp add: fits_signed_def)
  have "sint (ucast (- 5 :: int64) :: uint32) = sint (- 5 :: int64)"
    by (rule ucast_down_sint [OF f])
  also have "\<dots> = sint (- 5 :: uint32)"
    by simp
  finally have u: "(ucast (- 5 :: int64) :: uint32) = - 5"
    by (rule signed_word_eqI)
  show ?thesis
    using f pg_hashint8_int32 [OF f, of hash_bytes_uint32 hash_bytes_uint32_extended 7, unfolded u]
    by blast
qed

subsection \<open>Sentinel timestamps\<close>

text \<open>
  C5. For a sentinel timestamp (-infinity or +infinity) \<open>pg_timestamp_pl_interval\<close> raises
  no error and returns the timestamp unchanged, whatever the interval and whatever the
  date and time routines do.
\<close>

theorem pg_timestamp_pl_interval_sentinel:
  assumes "timestamp = DT_NOBEGIN \<or> timestamp = DT_NOEND"
  shows "pg_timestamp_pl_interval lib timestamp span = Inr timestamp"
  using assms by (simp add: pg_timestamp_pl_interval_def TIMESTAMP_NOT_FINITE_def)

theorem pg_timestamp_pl_interval_sentinel_witness:
  "\<forall>lib span.
     pg_timestamp_pl_interval lib DT_NOBEGIN span = Inr DT_NOBEGIN \<and>
     pg_timestamp_pl_interval lib DT_NOEND span = Inr DT_NOEND"
  using pg_timestamp_pl_interval_sentinel [of DT_NOBEGIN]
    pg_timestamp_pl_interval_sentinel [of DT_NOEND]
  by simp

text \<open>
  C6. \<open>pg_timestamp_mi\<close> raises "cannot subtract infinite timestamps" exactly when one of
  its arguments is a sentinel, and returns an interval exactly when both are finite.
\<close>

theorem pg_timestamp_mi_error_iff:
  "(pg_timestamp_mi dt1 dt2 = Inl (ERROR ''cannot subtract infinite timestamps''))
     = (TIMESTAMP_NOT_FINITE dt1 \<or> TIMESTAMP_NOT_FINITE dt2) \<and>
   (\<exists>result. pg_timestamp_mi dt1 dt2 = Inr result)
     = (\<not> TIMESTAMP_NOT_FINITE dt1 \<and> \<not> TIMESTAMP_NOT_FINITE dt2)"
  by (simp add: pg_timestamp_mi_def)

theorem pg_timestamp_mi_error_iff_witness:
  "pg_timestamp_mi DT_NOEND 0 = Inl (ERROR ''cannot subtract infinite timestamps'') \<and>
   pg_timestamp_mi 0 DT_NOBEGIN = Inl (ERROR ''cannot subtract infinite timestamps'') \<and>
   (\<exists>result. pg_timestamp_mi 5 3 = Inr result)"
  using pg_timestamp_mi_error_iff [of DT_NOEND 0] pg_timestamp_mi_error_iff [of 0 DT_NOBEGIN]
    pg_timestamp_mi_error_iff [of 5 3]
  by (simp add: TIMESTAMP_NOT_FINITE_def DT_NOEND_def DT_NOBEGIN_def)

subsection \<open>Splitting microseconds into days and the rest\<close>

lemma sint64_bounds: "- 9223372036854775808 \<le> sint (a::int64) \<and> sint a < 9223372036854775808"
  using sint_ge [of a] sint_lt [of a] by simp

lemma sint32_bounds: "- 2147483648 \<le> sint (a::int32) \<and> sint a < 2147483648"
  using sint_ge [of a] sint_lt [of a] by simp

lemma sint_mult_fits:
  fixes a b :: "'a::len word"
  assumes "fits_signed LENGTH('a) (sint a * sint b)"
  shows "sint (a * b) = sint a * sint b"
  using assms
  by (simp add: fits_signed_def sint_word_ariths signed_take_bit_int_eq_self)

lemma sint_diff_fits:
  fixes a b :: "'a::len word"
  assumes "fits_signed LENGTH('a) (sint a - sint b)"
  shows "sint (a - b) = sint a - sint b"
  using assms
  by (simp add: fits_signed_def sint_word_ariths signed_take_bit_int_eq_self)

lemma sint_minus_fits:
  fixes a :: "'a::len word"
  assumes "fits_signed LENGTH('a) (- sint a)"
  shows "sint (- a) = - sint a"
  using assms
  by (simp add: fits_signed_def sint_word_ariths signed_take_bit_int_eq_self)

lemma sdiv_smod_nonneg:
  fixes k l :: int
  assumes "0 \<le> k" and "0 < l"
  shows "k sdiv l = k div l" and "k smod l = k mod l"
  using assms by (simp_all add: signed_divide_int_def signed_modulo_int_def sgn_if)

lemma sdiv_smod_neg:
  fixes k l :: int
  assumes "k < 0" and "0 < l"
  shows "k sdiv l = - ((- k) div l)" and "k smod l = - ((- k) mod l)"
  using assms by (simp_all add: signed_divide_int_def signed_modulo_int_def sgn_if)

lemma usecs_split:
  fixes t :: int
  assumes "- 9223372036854775808 \<le> t" and "t < 9223372036854775808"
  shows "- 106751991 \<le> t sdiv 86400000000" and "t sdiv 86400000000 \<le> 106751991"
    and "- 86400000000 < t smod 86400000000" and "t smod 86400000000 < 86400000000"
    and "0 \<le> t \<Longrightarrow> 0 \<le> t sdiv 86400000000 \<and> 0 \<le> t smod 86400000000"
    and "t \<le> 0 \<Longrightarrow> t sdiv 86400000000 \<le> 0 \<and> t smod 86400000000 \<le> 0"
proof -
  have all: "- 106751991 \<le> t sdiv 86400000000 \<and> t sdiv 86400000000 \<le> 106751991 \<and>
    - 86400000000 < t smod 86400000000 \<and> t smod 86400000000 < 86400000000 \<and>
    (0 \<le> t \<longrightarrow> 0 \<le> t sdiv 86400000000 \<and> 0 \<le> t smod 86400000000) \<and>
    (t \<le> 0 \<longrightarrow> t sdiv 86400000000 \<le> 0 \<and> t smod 86400000000 \<le> 0)"
  proof (cases "0 \<le> t")
    case True
    have "t div 86400000000 \<le> 9223372036854775807 div 86400000000"
      by (rule zdiv_mono1) (use assms in simp_all)
    then have q: "t div 86400000000 \<le> 106751991" by simp
    have q0: "0 \<le> t div 86400000000"
      using True by (simp add: pos_imp_zdiv_nonneg_iff)
    have m: "0 \<le> t mod 86400000000" "t mod 86400000000 < 86400000000"
      by simp_all
    have z: "t = 0 \<Longrightarrow> t div 86400000000 = 0 \<and> t mod 86400000000 = 0"
      by simp
    show ?thesis
      using True q q0 m z by (auto simp: sdiv_smod_nonneg)
  next
    case False
    then have neg: "t < 0" by simp
    have "(- t) div 86400000000 \<le> 9223372036854775808 div 86400000000"
      by (rule zdiv_mono1) (use assms in simp_all)
    then have q: "(- t) div 86400000000 \<le> 106751991" by simp
    have q0: "0 \<le> (- t) div 86400000000"
      using neg by (simp add: pos_imp_zdiv_nonneg_iff)
    have m: "0 \<le> (- t) mod 86400000000" "(- t) mod 86400000000 < 86400000000"
      by simp_all
    show ?thesis
      using neg q q0 m by (simp add: sdiv_smod_neg)
  qed
  from all show "- 106751991 \<le> t sdiv 86400000000" by blast
  from all show "t sdiv 86400000000 \<le> 106751991" by blast
  from all show "- 86400000000 < t smod 86400000000" by blast
  from all show "t smod 86400000000 < 86400000000" by blast
  from all show "0 \<le> t \<Longrightarrow> 0 \<le> t sdiv 86400000000 \<and> 0 \<le> t smod 86400000000" by blast
  from all show "t \<le> 0 \<Longrightarrow> t sdiv 86400000000 \<le> 0 \<and> t smod 86400000000 \<le> 0" by blast
qed

lemma sint_USECS_PER_DAY: "sint USECS_PER_DAY = 86400000000"
  by (simp add: USECS_PER_DAY_def)

lemma sint_c_div_usecs: "sint (c_div t USECS_PER_DAY) = sint t sdiv 86400000000"
  unfolding c_div_def sint_USECS_PER_DAY
  by (rule sint_word_of_int_fits)
    (use usecs_split(1,2) [of "sint t"] sint64_bounds [of t] in \<open>simp add: fits_signed_def\<close>)

lemma sint_c_mod_usecs: "sint (c_mod t USECS_PER_DAY) = sint t smod 86400000000"
  unfolding c_mod_def sint_USECS_PER_DAY
  by (rule sint_word_of_int_fits)
    (use usecs_split(3,4) [of "sint t"] sint64_bounds [of t] in \<open>simp add: fits_signed_def\<close>)

subsection \<open>Interval comparison\<close>

lemma sint_scast_32_64: "sint (scast (a :: int32) :: int64) = sint a"
  by (rule sint_up_scast) (simp add: is_up)

lemma sint_scast_64_128: "sint (scast (a :: int64) :: int128) = sint a"
  by (rule sint_up_scast) (simp add: is_up)

lemma sint_interval_cmp_value:
  "sint (interval_cmp_value i) = interval_linear_value i"
proof -
  define t where "t = sint (time i)"
  define m where "m = sint (month i)"
  define d where "d = sint (day i)"
  define q where "q = t sdiv 86400000000"
  define r where "r = t smod 86400000000"
  have tb: "- 9223372036854775808 \<le> t" "t < 9223372036854775808"
    using sint64_bounds [of "time i"] by (simp_all add: t_def)
  have mb: "- 2147483648 \<le> m" "m < 2147483648"
    using sint32_bounds [of "month i"] by (simp_all add: m_def)
  have db: "- 2147483648 \<le> d" "d < 2147483648"
    using sint32_bounds [of "day i"] by (simp_all add: d_def)
  have qb: "- 106751991 \<le> q" "q \<le> 106751991"
    using usecs_split(1,2) [OF tb] by (simp_all add: q_def)
  have rb: "- 86400000000 < r" "r < 86400000000"
    using usecs_split(3,4) [OF tb] by (simp_all add: r_def)
  have qr: "q * 86400000000 + r = t"
    unfolding q_def r_def by (rule sdiv_mult_smod_eq)
  have dayfraction: "sint (c_mod (time i) USECS_PER_DAY) = r"
    by (simp add: sint_c_mod_usecs r_def t_def)
  have days0: "sint (c_div (time i) USECS_PER_DAY) = q"
    by (simp add: sint_c_div_usecs q_def t_def)
  have m30: "sint ((scast (month i) :: int64) * 30) = m * 30"
  proof -
    have "sint ((scast (month i) :: int64) * 30) = sint (scast (month i) :: int64) * sint (30 :: int64)"
      by (rule sint_mult_fits) (use mb in \<open>simp add: sint_scast_32_64 fits_signed_def m_def\<close>)
    then show ?thesis
      by (simp add: sint_scast_32_64 m_def)
  qed
  have days1: "sint (c_div (time i) USECS_PER_DAY + scast (month i) * 30) = q + m * 30"
  proof -
    have "sint (c_div (time i) USECS_PER_DAY + scast (month i) * 30)
        = sint (c_div (time i) USECS_PER_DAY) + sint ((scast (month i) :: int64) * 30)"
      by (rule sint_add_fits) (use qb mb in \<open>simp add: days0 m30 fits_signed_def\<close>)
    then show ?thesis
      by (simp add: days0 m30)
  qed
  have days2: "sint (c_div (time i) USECS_PER_DAY + scast (month i) * 30 + scast (day i))
      = q + m * 30 + d"
  proof -
    have "sint (c_div (time i) USECS_PER_DAY + scast (month i) * 30 + scast (day i))
        = sint (c_div (time i) USECS_PER_DAY + scast (month i) * 30) + sint (scast (day i) :: int64)"
      by (rule sint_add_fits)
        (use qb mb db in \<open>simp add: days1 sint_scast_32_64 fits_signed_def d_def\<close>)
    then show ?thesis
      by (simp add: days1 sint_scast_32_64 d_def)
  qed
  define days :: int64 where
    "days = c_div (time i) USECS_PER_DAY + scast (month i) * 30 + scast (day i)"
  have daysb: "- 66678780022 \<le> sint days" "sint days \<le> 66678780022"
    using qb mb db days2 by (simp_all add: days_def)
  have prod_bound: "- 5761046593900800000000 \<le> sint days * 86400000000"
      "sint days * 86400000000 \<le> 5761046593900800000000"
    using daysb by simp_all
  have prod: "sint ((scast days :: int128) * scast USECS_PER_DAY) = sint days * 86400000000"
  proof -
    have "sint ((scast days :: int128) * scast USECS_PER_DAY)
        = sint (scast days :: int128) * sint (scast USECS_PER_DAY :: int128)"
      by (rule sint_mult_fits)
        (use prod_bound in \<open>simp add: sint_scast_64_128 sint_USECS_PER_DAY fits_signed_def\<close>)
    then show ?thesis
      by (simp add: sint_scast_64_128 sint_USECS_PER_DAY)
  qed
  have total: "sint ((scast (c_mod (time i) USECS_PER_DAY) :: int128)
        + scast days * scast USECS_PER_DAY) = r + sint days * 86400000000"
  proof -
    have "sint ((scast (c_mod (time i) USECS_PER_DAY) :: int128) + scast days * scast USECS_PER_DAY)
        = sint (scast (c_mod (time i) USECS_PER_DAY) :: int128)
          + sint ((scast days :: int128) * scast USECS_PER_DAY)"
      by (rule sint_add_fits)
        (use prod_bound rb in \<open>simp add: prod sint_scast_64_128 dayfraction fits_signed_def\<close>)
    then show ?thesis
      by (simp add: prod sint_scast_64_128 dayfraction)
  qed
  have "sint (interval_cmp_value i) = r + sint days * 86400000000"
    using total by (simp add: interval_cmp_value_def days_def)
  also have "\<dots> = r + (q + m * 30 + d) * 86400000000"
    using days2 by (simp add: days_def)
  also have "\<dots> = (m * 30 + d) * 86400000000 + t"
    using qr by (simp add: algebra_simps)
  finally show ?thesis
    by (simp add: interval_linear_value_def m_def d_def t_def)
qed

text \<open>
  C4. The 128-bit value that \<open>interval_cmp_value\<close> computes is the exact integer
  (months * 30 + days) * 86400000000 + microseconds: no step overflows. So
  \<open>pg_interval_cmp\<close> is the comparison of these exact values, and one month (30 days) is
  strictly less than 31 days.
\<close>

theorem pg_interval_cmp_exact:
  "sint (interval_cmp_value interval1) = interval_linear_value interval1 \<and>
   sint (interval_cmp_value interval2) = interval_linear_value interval2 \<and>
   pg_interval_cmp interval1 interval2 =
     (if interval_linear_value interval1 < interval_linear_value interval2 then - 1
      else if interval_linear_value interval2 < interval_linear_value interval1 then 1
      else 0) \<and>
   pg_interval_cmp \<lparr>time = 0, day = 0, month = 1\<rparr> \<lparr>time = 0, day = 31, month = 0\<rparr> = - 1"
  by (simp add: pg_interval_cmp_def int128_compare_def sint_interval_cmp_value
      interval_linear_value_def)

theorem pg_interval_cmp_exact_witness:
  "pg_interval_cmp \<lparr>time = 0, day = 31, month = 0\<rparr> \<lparr>time = 0, day = 0, month = 1\<rparr> = 1 \<and>
   pg_interval_cmp \<lparr>time = 86400000000, day = 29, month = 0\<rparr> \<lparr>time = 0, day = 0, month = 1\<rparr> = 0 \<and>
   interval_linear_value \<lparr>time = 0, day = 31, month = 0\<rparr> = 2678400000000 \<and>
   interval_linear_value \<lparr>time = 0, day = 0, month = 1\<rparr> = 2592000000000"
  using pg_interval_cmp_exact
      [of "\<lparr>time = 0, day = 31, month = 0\<rparr>" "\<lparr>time = 0, day = 0, month = 1\<rparr>"]
    pg_interval_cmp_exact
      [of "\<lparr>time = 86400000000, day = 29, month = 0\<rparr>" "\<lparr>time = 0, day = 0, month = 1\<rparr>"]
  by (simp add: interval_linear_value_def)

subsection \<open>Timestamp subtraction\<close>

lemma TMODULO_usecs:
  "TMODULO t USECS_PER_DAY = (c_mod t USECS_PER_DAY, c_div t USECS_PER_DAY)"
proof -
  define k where "k = sint t"
  define q where "q = k sdiv 86400000000"
  define r where "r = k smod 86400000000"
  have kb: "- 9223372036854775808 \<le> k" "k < 9223372036854775808"
    using sint64_bounds [of t] by (simp_all add: k_def)
  have qr: "q * 86400000000 + r = k"
    unfolding q_def r_def by (rule sdiv_mult_smod_eq)
  have sq: "sint (c_div t USECS_PER_DAY) = q"
    by (simp add: sint_c_div_usecs q_def k_def)
  have sr: "sint (c_mod t USECS_PER_DAY) = r"
    by (simp add: sint_c_mod_usecs r_def k_def)
  have rb: "- 86400000000 < r" "r < 86400000000"
    using usecs_split(3,4) [OF kb] by (simp_all add: r_def)
  have signs: "0 \<le> k \<Longrightarrow> 0 \<le> q \<and> 0 \<le> r" "k \<le> 0 \<Longrightarrow> q \<le> 0 \<and> r \<le> 0"
    using usecs_split(5,6) [OF kb] by (simp_all add: q_def r_def)
  have qU: "- 9223372036854775808 \<le> q * 86400000000" "q * 86400000000 < 9223372036854775808"
    using qr rb kb signs by (cases "0 \<le> k"; linarith)+
  have prod: "sint (c_div t USECS_PER_DAY * USECS_PER_DAY) = q * 86400000000"
  proof -
    have "sint (c_div t USECS_PER_DAY * USECS_PER_DAY)
        = sint (c_div t USECS_PER_DAY) * sint USECS_PER_DAY"
      by (rule sint_mult_fits) (use qU in \<open>simp add: sq sint_USECS_PER_DAY fits_signed_def\<close>)
    then show ?thesis
      by (simp add: sq sint_USECS_PER_DAY)
  qed
  have "sint (t - c_div t USECS_PER_DAY * USECS_PER_DAY)
      = sint t - sint (c_div t USECS_PER_DAY * USECS_PER_DAY)"
    by (rule sint_diff_fits) (use qr rb in \<open>simp add: prod fits_signed_def k_def [symmetric]\<close>)
  then have "sint (t - c_div t USECS_PER_DAY * USECS_PER_DAY) = sint (c_mod t USECS_PER_DAY)"
    using qr by (simp add: prod sr k_def [symmetric])
  then have sub: "t - c_div t USECS_PER_DAY * USECS_PER_DAY = c_mod t USECS_PER_DAY"
    by (rule signed_word_eqI)
  have zero: "c_mod t USECS_PER_DAY = t" if "c_div t USECS_PER_DAY = 0"
  proof -
    have "q = 0" using sq that by simp
    then have "r = k" using qr by simp
    then have "sint (c_mod t USECS_PER_DAY) = sint t"
      by (simp add: sr k_def)
    then show ?thesis by (rule signed_word_eqI)
  qed
  show ?thesis
    by (simp add: TMODULO_def Let_def sub zero)
qed

lemma pg_timestamp_mi_result:
  assumes "\<not> TIMESTAMP_NOT_FINITE dt1" and "\<not> TIMESTAMP_NOT_FINITE dt2"
  shows "pg_timestamp_mi dt1 dt2 =
      Inr \<lparr>time = c_mod (dt1 - dt2) USECS_PER_DAY,
           day = ucast (c_div (dt1 - dt2) USECS_PER_DAY), month = 0\<rparr> \<and>
    sint (ucast (c_div (dt1 - dt2) USECS_PER_DAY) :: int32) = sint (dt1 - dt2) sdiv 86400000000"
proof -
  define k where "k = sint (dt1 - dt2)"
  define q where "q = k sdiv 86400000000"
  define r where "r = k smod 86400000000"
  have kb: "- 9223372036854775808 \<le> k" "k < 9223372036854775808"
    using sint64_bounds [of "dt1 - dt2"] by (simp_all add: k_def)
  have sq: "sint (c_div (dt1 - dt2) USECS_PER_DAY) = q"
    by (simp add: sint_c_div_usecs q_def k_def)
  have sr: "sint (c_mod (dt1 - dt2) USECS_PER_DAY) = r"
    by (simp add: sint_c_mod_usecs r_def k_def)
  have qb: "- 106751991 \<le> q" "q \<le> 106751991"
    using usecs_split(1,2) [OF kb] by (simp_all add: q_def)
  have signs: "0 \<le> k \<Longrightarrow> 0 \<le> q \<and> 0 \<le> r" "k \<le> 0 \<Longrightarrow> q \<le> 0 \<and> r \<le> 0"
    using usecs_split(5,6) [OF kb] by (simp_all add: q_def r_def)
  have sd: "sint (ucast (c_div (dt1 - dt2) USECS_PER_DAY) :: int32) = q"
    using ucast_down_sint [of "c_div (dt1 - dt2) USECS_PER_DAY"] qb
    by (simp add: sq fits_signed_def)
  have no_borrow: "\<not> (0 < q \<and> r < 0)" "\<not> (q < 0 \<and> 0 < r)"
    using signs by (cases "0 \<le> k"; linarith)+
  have "pg_interval_justify_hours \<lparr>time = dt1 - dt2, day = 0, month = 0\<rparr> =
      \<lparr>time = c_mod (dt1 - dt2) USECS_PER_DAY,
       day = ucast (c_div (dt1 - dt2) USECS_PER_DAY), month = 0\<rparr>"
    using no_borrow
    by (simp add: pg_interval_justify_hours_def TMODULO_usecs Let_def sd sr)
  with assms sd show ?thesis
    by (simp add: pg_timestamp_mi_def q_def k_def)
qed

text \<open>
  For finite timestamps whose exact difference fits 64 bits, \<open>pg_timestamp_mi\<close> returns
  an interval with no months, whose days and microseconds add up to exactly that
  difference. The microseconds are less than one day in magnitude, and days and
  microseconds never have opposite signs.
\<close>

lemma pg_timestamp_mi_normalized:
  assumes "\<not> TIMESTAMP_NOT_FINITE dt1" and "\<not> TIMESTAMP_NOT_FINITE dt2"
    and "fits_signed 64 (sint dt1 - sint dt2)"
  shows "\<exists>result. pg_timestamp_mi dt1 dt2 = Inr result \<and>
      month result = 0 \<and>
      sint (day result) * 86400000000 + sint (time result) = sint dt1 - sint dt2 \<and>
      \<bar>sint (time result)\<bar> < 86400000000 \<and>
      \<not> (0 < sint (day result) \<and> sint (time result) < 0) \<and>
      \<not> (sint (day result) < 0 \<and> 0 < sint (time result))"
proof -
  define k where "k = sint (dt1 - dt2)"
  define q where "q = k sdiv 86400000000"
  define r where "r = k smod 86400000000"
  define result where "result = \<lparr>time = c_mod (dt1 - dt2) USECS_PER_DAY,
      day = (ucast (c_div (dt1 - dt2) USECS_PER_DAY) :: int32), month = 0\<rparr>"
  have kb: "- 9223372036854775808 \<le> k" "k < 9223372036854775808"
    using sint64_bounds [of "dt1 - dt2"] by (simp_all add: k_def)
  have res: "pg_timestamp_mi dt1 dt2 = Inr result"
    using pg_timestamp_mi_result [OF assms(1,2)] by (simp add: result_def)
  have sd: "sint (day result) = q"
    using pg_timestamp_mi_result [OF assms(1,2)] by (simp add: result_def q_def k_def)
  have sr: "sint (time result) = r"
    by (simp add: result_def sint_c_mod_usecs r_def k_def)
  have qr: "q * 86400000000 + r = k"
    unfolding q_def r_def by (rule sdiv_mult_smod_eq)
  have rb: "- 86400000000 < r" "r < 86400000000"
    using usecs_split(3,4) [OF kb] by (simp_all add: r_def)
  have signs: "0 \<le> k \<Longrightarrow> 0 \<le> q \<and> 0 \<le> r" "k \<le> 0 \<Longrightarrow> q \<le> 0 \<and> r \<le> 0"
    using usecs_split(5,6) [OF kb] by (simp_all add: q_def r_def)
  have no_borrow: "\<not> (0 < q \<and> r < 0)" "\<not> (q < 0 \<and> 0 < r)"
    using signs by (cases "0 \<le> k"; linarith)+
  have exact: "k = sint dt1 - sint dt2"
    unfolding k_def by (rule sint_diff_fits) (use assms(3) in simp)
  have "month result = 0"
    by (simp add: result_def)
  moreover have "sint (day result) * 86400000000 + sint (time result) = sint dt1 - sint dt2"
    using qr exact by (simp add: sd sr)
  moreover have "\<bar>sint (time result)\<bar> < 86400000000"
    using rb by (simp add: sr)
  moreover have "\<not> (0 < sint (day result) \<and> sint (time result) < 0)"
    using no_borrow by (simp add: sd sr)
  moreover have "\<not> (sint (day result) < 0 \<and> 0 < sint (time result))"
    using no_borrow by (simp add: sd sr)
  ultimately show ?thesis
    using res by blast
qed

lemma pg_timestamp_mi_normalized_example:
  "\<not> TIMESTAMP_NOT_FINITE 100000000000 \<and> \<not> TIMESTAMP_NOT_FINITE (- 5) \<and>
   fits_signed 64 (sint (100000000000 :: int64) - sint (- 5 :: int64)) \<and>
   (\<exists>result. pg_timestamp_mi 100000000000 (- 5) = Inr result \<and>
      month result = 0 \<and>
      sint (day result) * 86400000000 + sint (time result) = 100000000005 \<and>
      \<bar>sint (time result)\<bar> < 86400000000)"
proof -
  have f1: "\<not> TIMESTAMP_NOT_FINITE 100000000000"
    by (simp add: TIMESTAMP_NOT_FINITE_def DT_NOBEGIN_def DT_NOEND_def)
  have f2: "\<not> TIMESTAMP_NOT_FINITE (- 5)"
    by (simp add: TIMESTAMP_NOT_FINITE_def DT_NOBEGIN_def DT_NOEND_def)
  have f3: "fits_signed 64 (sint (100000000000 :: int64) - sint (- 5 :: int64))"
    by (simp add: fits_signed_def)
  have v: "sint (100000000000 :: int64) - sint (- 5 :: int64) = 100000000005"
    by simp
  show ?thesis
    using f1 f2 f3 pg_timestamp_mi_normalized [OF f1 f2 f3] unfolding v
    by blast
qed

text \<open>
  C3. The difference is computed in 64 bits with no test for overflow. For the greatest
  and the least valid timestamp the exact difference is positive and does not fit 64 bits;
  the subtraction wraps around, and the interval returned has negative days and negative
  microseconds, which do not add up to the difference.
\<close>

theorem pg_timestamp_mi_wraps:
  "IS_VALID_TIMESTAMP 9223371331199999999 \<and>
   IS_VALID_TIMESTAMP (- 211813488000000000) \<and>
   \<not> TIMESTAMP_NOT_FINITE 9223371331199999999 \<and>
   \<not> TIMESTAMP_NOT_FINITE (- 211813488000000000) \<and>
   pg_timestamp_mi 9223371331199999999 (- 211813488000000000)
     = Inr \<lparr>time = - 28909551617, day = - 104300454, month = 0\<rparr> \<and>
   sint (9223371331199999999 :: int64) - sint (- 211813488000000000 :: int64)
     = 9435184819199999999 \<and>
   \<not> fits_signed 64 9435184819199999999 \<and>
   sint (- 104300454 :: int32) * 86400000000 + sint (- 28909551617 :: int64)
     = - 9011559254509551617"
  by (simp add: pg_timestamp_mi_def TIMESTAMP_NOT_FINITE_def DT_NOBEGIN_def DT_NOEND_def
      IS_VALID_TIMESTAMP_def MIN_TIMESTAMP_def END_TIMESTAMP_def fits_signed_def
      pg_interval_justify_hours_def TMODULO_def c_div_def USECS_PER_DAY_def
      signed_divide_int_def)

subsection \<open>Rounding to a precision\<close>

lemma adjust_nonneg_core:
  fixes x s off :: int64
  assumes s: "0 < sint s" and x: "0 \<le> sint x" and o: "0 \<le> sint off"
    and b: "sint x + sint off < 9223372036854775808"
  shows "sint (c_div (x + off) s * s) = ((sint x + sint off) div sint s) * sint s"
proof -
  define a where "a = sint x + sint off"
  have a0: "0 \<le> a" "a < 9223372036854775808"
    using x o b by (simp_all add: a_def)
  have sa: "sint (x + off) = a"
    unfolding a_def by (rule sint_add_fits) (use a0 in \<open>simp add: fits_signed_def a_def\<close>)
  have d0: "0 \<le> a div sint s"
    using a0 s by (simp add: pos_imp_zdiv_nonneg_iff)
  have dle: "a div sint s * sint s \<le> a"
    using div_mult_mod_eq [of a "sint s"] pos_mod_sign [of "sint s" a] s by linarith
  have dle1: "a div sint s \<le> a"
    using zdiv_mono2 [of a 1 "sint s"] a0 s by simp
  have sq: "sint (c_div (x + off) s) = a div sint s"
    unfolding c_div_def sa sdiv_smod_nonneg(1) [OF a0(1) s]
    by (rule sint_word_of_int_fits) (use d0 dle1 a0 in \<open>simp add: fits_signed_def\<close>)
  have p0: "0 \<le> a div sint s * sint s"
    using d0 s by simp
  have "sint (c_div (x + off) s * s) = sint (c_div (x + off) s) * sint s"
    by (rule sint_mult_fits) (use p0 dle a0 in \<open>simp add: sq fits_signed_def\<close>)
  then show ?thesis
    by (simp add: sq a_def)
qed


lemma sint_adjust_value:
  fixes ts s off :: int64
  assumes s: "0 < sint s" and o: "0 \<le> sint off" and os: "sint off < sint s"
    and b: "\<bar>sint ts\<bar> + sint off < 9223372036854775808"
  shows "sint (adjust_value s off ts)
      = sgn (sint ts) * (((\<bar>sint ts\<bar> + sint off) div sint s) * sint s)"
proof (cases "0 \<le> sint ts")
  case True
  have z: "sint ts = 0 \<Longrightarrow> (sint ts + sint off) div sint s = 0"
    using o os by simp
  have "sint (adjust_value s off ts) = ((sint ts + sint off) div sint s) * sint s"
    using adjust_nonneg_core [OF s True o] b True by (simp add: adjust_value_def)
  with True z show ?thesis
    by (cases "sint ts = 0") (simp_all add: sgn_if)
next
  case False
  then have neg: "sint ts < 0" by simp
  have m: "sint (- ts) = - sint ts"
    by (rule sint_minus_fits) (use b o neg in \<open>simp add: fits_signed_def\<close>)
  have c: "sint (c_div (- ts + off) s * s) = ((sint (- ts) + sint off) div sint s) * sint s"
    by (rule adjust_nonneg_core [OF s _ o]) (use m neg b in simp_all)
  have c0: "0 \<le> ((sint (- ts) + sint off) div sint s) * sint s"
    using s o m neg by (simp add: pos_imp_zdiv_nonneg_iff)
  have cle: "((sint (- ts) + sint off) div sint s) * sint s \<le> sint (- ts) + sint off"
    using div_mult_mod_eq [of "sint (- ts) + sint off" "sint s"]
      pos_mod_sign [of "sint s" "sint (- ts) + sint off"] s by linarith
  have "sint (- (c_div (- ts + off) s * s)) = - sint (c_div (- ts + off) s * s)"
    by (rule sint_minus_fits) (use c c0 cle m b neg in \<open>simp add: fits_signed_def\<close>)
  with neg c m show ?thesis
    by (simp add: adjust_value_def sgn_if)
qed

lemma adjust_value_neg:
  fixes ts s off :: int64
  assumes s: "0 < sint s" and o: "0 \<le> sint off" and os: "sint off < sint s"
    and b: "\<bar>sint ts\<bar> + sint off < 9223372036854775808"
  shows "adjust_value s off (- ts) = - adjust_value s off ts"
proof -
  have m: "sint (- ts) = - sint ts"
    by (rule sint_minus_fits) (use b o in \<open>auto simp: fits_signed_def\<close>)
  consider (pos) "0 < sint ts" | (zero) "sint ts = 0" | (neg) "sint ts < 0"
    by linarith
  then show ?thesis
  proof cases
    case pos
    then show ?thesis using m by (simp add: adjust_value_def)
  next
    case zero
    then have "sint ts = sint (0 :: int64)" by simp
    then have t0: "ts = 0" by (rule signed_word_eqI)
    have "sint off sdiv sint s = 0"
      using o os s by (simp add: sdiv_smod_nonneg)
    then have "c_div off s = 0"
      by (simp add: c_div_def)
    then show ?thesis
      by (simp add: adjust_value_def t0)
  next
    case neg
    then show ?thesis using m by (simp add: adjust_value_def)
  qed
qed

lemma precision_cases:
  assumes "p < (6::nat)"
  shows "p = 0 \<or> p = 1 \<or> p = 2 \<or> p = 3 \<or> p = 4 \<or> p = 5"
  using assms by arith

lemma sint_TimestampScales:
  assumes "p < 6"
  shows "sint (TimestampScales ! p) = 10 ^ (6 - p)"
    and "sint (TimestampOffsets ! p) = 5 * 10 ^ (5 - p)"
  using precision_cases [OF assms]
  by (auto simp: TimestampScales_def TimestampOffsets_def)

lemma adjust_bound_finite:
  assumes "\<bar>sint ts\<bar> + k < 9223372036854775808" and "0 < k"
  shows "\<not> TIMESTAMP_NOT_FINITE ts" and "\<not> TIMESTAMP_NOT_FINITE (- ts)"
proof -
  have m: "sint (- ts) = - sint ts"
    by (rule sint_minus_fits) (use assms in \<open>auto simp: fits_signed_def\<close>)
  have "sint ts \<noteq> sint DT_NOBEGIN" "sint ts \<noteq> sint DT_NOEND"
    using assms by (auto simp: DT_NOBEGIN_def DT_NOEND_def)
  then show "\<not> TIMESTAMP_NOT_FINITE ts"
    by (auto simp: TIMESTAMP_NOT_FINITE_def)
  have "sint (- ts) \<noteq> sint DT_NOBEGIN" "sint (- ts) \<noteq> sint DT_NOEND"
    using assms by (auto simp: m DT_NOBEGIN_def DT_NOEND_def)
  then show "\<not> TIMESTAMP_NOT_FINITE (- ts)"
    by (auto simp: TIMESTAMP_NOT_FINITE_def)
qed

lemma AdjustTimestampForTypmodError_precision:
  assumes "p < 6" and "\<not> TIMESTAMP_NOT_FINITE ts"
  shows "AdjustTimestampForTypmodError ts (of_nat p) err
    = Inr (True, adjust_value (TimestampScales ! p) (TimestampOffsets ! p) ts, err)"
  using precision_cases [OF assms(1)] assms(2)
  by (auto simp: AdjustTimestampForTypmodError_def MAX_TIMESTAMP_PRECISION_def adjust_value_def)

lemma round_half_away_nearest:
  fixes h t :: int
  assumes "0 < h"
  shows "(2 * h) dvd round_half_away (2 * h) t"
    and "\<bar>round_half_away (2 * h) t - t\<bar> \<le> h"
    and "\<bar>round_half_away (2 * h) t - t\<bar> = h \<Longrightarrow> \<bar>t\<bar> < \<bar>round_half_away (2 * h) t\<bar>"
proof -
  define a where "a = \<bar>t\<bar>"
  define r where "r = ((a + h) div (2 * h)) * (2 * h)"
  define m where "m = (a + h) mod (2 * h)"
  have eq: "r + m = a + h"
    unfolding r_def m_def by (rule div_mult_mod_eq)
  have mb: "0 \<le> m" "m < 2 * h"
    using assms by (simp_all add: m_def)
  have a0: "0 \<le> a" by (simp add: a_def)
  have rh: "round_half_away (2 * h) t = sgn t * r"
    using assms by (simp add: round_half_away_def r_def a_def)
  have ts: "t = sgn t * a"
    by (simp add: a_def sgn_if)
  show "(2 * h) dvd round_half_away (2 * h) t"
    by (simp add: rh r_def)
  have diff: "\<bar>round_half_away (2 * h) t - t\<bar> = \<bar>r - a\<bar>"
  proof (cases "t = 0")
    case True
    then have "a = 0" by (simp add: a_def)
    then have "(a + h) div (2 * h) = 0" using assms by simp
    then have "r = 0" by (simp add: r_def)
    with True \<open>a = 0\<close> show ?thesis by (simp add: round_half_away_def)
  next
    case False
    then show ?thesis
      by (cases "0 < t") (simp_all add: rh a_def sgn_if)
  qed
  show "\<bar>round_half_away (2 * h) t - t\<bar> \<le> h"
    unfolding diff using eq mb by linarith
  have r0: "0 \<le> r"
    using a0 assms by (simp add: r_def pos_imp_zdiv_nonneg_iff)
  have absr: "\<bar>round_half_away (2 * h) t\<bar> = (if t = 0 then 0 else r)"
    using r0 by (simp add: rh abs_mult sgn_if)
  show "\<bar>t\<bar> < \<bar>round_half_away (2 * h) t\<bar>" if "\<bar>round_half_away (2 * h) t - t\<bar> = h"
  proof -
    have "\<bar>r - a\<bar> = h" using that by (simp add: diff)
    then have ra: "r = a + h" using eq mb assms by linarith
    have "t \<noteq> 0"
    proof
      assume "t = 0"
      then have "a = 0" by (simp add: a_def)
      then have "(a + h) div (2 * h) = 0" using assms by simp
      then have "r = 0" by (simp add: r_def)
      with ra \<open>a = 0\<close> assms show False by simp
    qed
    then show ?thesis
      using ra assms by (simp add: absr a_def)
  qed
qed

text \<open>
  C9, as amended. \<open>AdjustTimestampForTypmodError\<close> leaves a sentinel timestamp unchanged,
  and every timestamp when the precision is -1 or 6. For a precision \<open>p\<close> from 0 to 5 and a
  timestamp whose magnitude plus half a unit, 5 * 10^(5-p), stays below 2^63, the result
  is the timestamp rounded to a multiple of 10^(6-p), halves away from zero, and the
  result for the negated timestamp is the negated result.
\<close>

theorem AdjustTimestampForTypmodError_rounds:
  "(TIMESTAMP_NOT_FINITE ts \<or> typmod = - 1 \<or> typmod = MAX_TIMESTAMP_PRECISION \<longrightarrow>
      AdjustTimestampForTypmodError ts typmod err = Inr (True, ts, err)) \<and>
   (p < 6 \<and> \<bar>sint ts\<bar> + 5 * 10 ^ (5 - p) < 2 ^ 63 \<longrightarrow>
      (\<exists>r. AdjustTimestampForTypmodError ts (of_nat p) err = Inr (True, r, err) \<and>
           sint r = round_half_away (10 ^ (6 - p)) (sint ts) \<and>
           10 ^ (6 - p) dvd sint r \<and>
           AdjustTimestampForTypmodError (- ts) (of_nat p) err = Inr (True, - r, err) \<and>
           sint (- r) = - sint r))"
proof (intro conjI impI)
  assume "TIMESTAMP_NOT_FINITE ts \<or> typmod = - 1 \<or> typmod = MAX_TIMESTAMP_PRECISION"
  then show "AdjustTimestampForTypmodError ts typmod err = Inr (True, ts, err)"
    by (auto simp: AdjustTimestampForTypmodError_def)
next
  assume a: "p < 6 \<and> \<bar>sint ts\<bar> + 5 * 10 ^ (5 - p) < 2 ^ 63"
  then have p: "p < 6" and b: "\<bar>sint ts\<bar> + 5 * 10 ^ (5 - p) < 9223372036854775808"
    by simp_all
  define s where "s = TimestampScales ! p"
  define off where "off = TimestampOffsets ! p"
  define r where "r = adjust_value s off ts"
  have ss: "sint s = 10 ^ (6 - p)" and so: "sint off = 5 * 10 ^ (5 - p)"
    using sint_TimestampScales [OF p] by (simp_all add: s_def off_def)
  have pw: "(10::int) ^ (6 - p) = 2 * (5 * 10 ^ (5 - p))"
    using precision_cases [OF p] by auto
  have s0: "0 < sint s" and o0: "0 \<le> sint off" and os: "sint off < sint s"
    by (simp_all add: ss so pw)
  have b': "\<bar>sint ts\<bar> + sint off < 9223372036854775808"
    using b by (simp add: so)
  have k0: "(0::int) < 5 * 10 ^ (5 - p)" by simp
  have fin: "\<not> TIMESTAMP_NOT_FINITE ts" "\<not> TIMESTAMP_NOT_FINITE (- ts)"
    using adjust_bound_finite [OF b k0] by simp_all
  have res: "AdjustTimestampForTypmodError ts (of_nat p) err = Inr (True, r, err)"
    using AdjustTimestampForTypmodError_precision [OF p fin(1)] by (simp add: r_def s_def off_def)
  have sr: "sint r = round_half_away (10 ^ (6 - p)) (sint ts)"
    using sint_adjust_value [OF s0 o0 os b']
    by (simp add: r_def round_half_away_def ss so pw)
  have dv: "10 ^ (6 - p) dvd sint r"
    unfolding sr pw by (rule round_half_away_nearest(1)) simp
  have "AdjustTimestampForTypmodError (- ts) (of_nat p) err
      = Inr (True, adjust_value s off (- ts), err)"
    using AdjustTimestampForTypmodError_precision [OF p fin(2)] by (simp add: s_def off_def)
  then have neg: "AdjustTimestampForTypmodError (- ts) (of_nat p) err = Inr (True, - r, err)"
    using adjust_value_neg [OF s0 o0 os b'] by (simp add: r_def)
  have m: "sint (- ts) = - sint ts"
    by (rule sint_minus_fits) (use b' o0 in \<open>auto simp: fits_signed_def\<close>)
  have "sint (adjust_value s off (- ts))
      = sgn (sint (- ts)) * (((\<bar>sint (- ts)\<bar> + sint off) div sint s) * sint s)"
    by (rule sint_adjust_value [OF s0 o0 os]) (use b' m in simp)
  then have "sint (adjust_value s off (- ts)) = - sint r"
    using sint_adjust_value [OF s0 o0 os b'] by (simp add: m r_def)
  then have sn: "sint (- r) = - sint r"
    using adjust_value_neg [OF s0 o0 os b'] by (simp add: r_def)
  show "\<exists>r. AdjustTimestampForTypmodError ts (of_nat p) err = Inr (True, r, err) \<and>
           sint r = round_half_away (10 ^ (6 - p)) (sint ts) \<and>
           10 ^ (6 - p) dvd sint r \<and>
           AdjustTimestampForTypmodError (- ts) (of_nat p) err = Inr (True, - r, err) \<and>
           sint (- r) = - sint r"
    using res sr dv neg sn by blast
qed

theorem AdjustTimestampForTypmodError_rounds_witness:
  "AdjustTimestampForTypmodError DT_NOEND 3 None = Inr (True, DT_NOEND, None) \<and>
   AdjustTimestampForTypmodError 1500000 (- 1) None = Inr (True, 1500000, None) \<and>
   (\<exists>r. AdjustTimestampForTypmodError 1500000 0 None = Inr (True, r, None) \<and>
        sint r = 2000000 \<and>
        AdjustTimestampForTypmodError (- 1500000) 0 None = Inr (True, - r, None) \<and>
        sint (- r) = - 2000000)"
proof -
  have v: "round_half_away (10 ^ (6 - 0)) (sint (1500000 :: int64)) = 2000000"
    by (simp add: round_half_away_def)
  have h: "(0::nat) < 6 \<and> \<bar>sint (1500000 :: int64)\<bar> + 5 * 10 ^ (5 - 0) < 2 ^ 63"
    by simp
  have n: "TIMESTAMP_NOT_FINITE DT_NOEND"
    by (simp add: TIMESTAMP_NOT_FINITE_def)
  show ?thesis
    using AdjustTimestampForTypmodError_rounds [of DT_NOEND 3 None 0]
      AdjustTimestampForTypmodError_rounds [of 1500000 "- 1" None 0] h n
    unfolding v
    by (auto simp del: of_nat_0) 
qed

lemma valid_timestamp_adjust_bound:
  assumes "IS_VALID_TIMESTAMP ts" and "p < 6"
  shows "\<bar>sint ts\<bar> + 5 * 10 ^ (5 - p) < 2 ^ 63"
proof -
  have "(5::int) * 10 ^ (5 - p) \<le> 500000"
    using precision_cases [OF assms(2)] by auto
  moreover have "\<bar>sint ts\<bar> \<le> 9223371331200000000"
    using assms(1) by (auto simp: IS_VALID_TIMESTAMP_def MIN_TIMESTAMP_def END_TIMESTAMP_def)
  ultimately show ?thesis by simp
qed

text \<open>
  C9 as stated fails for a finite timestamp next to the greatest 64-bit integer: adding
  the offset wraps around and the result is negative.
\<close>

theorem AdjustTimestampForTypmodError_wraps:
  "\<not> TIMESTAMP_NOT_FINITE 9223372036854775806 \<and>
   AdjustTimestampForTypmodError 9223372036854775806 0 None
     = Inr (True, - 9223372036854000000, None) \<and>
   sint (- 9223372036854000000 :: int64)
     \<noteq> round_half_away (10 ^ 6) (sint (9223372036854775806 :: int64))"
  by (simp add: AdjustTimestampForTypmodError_def TIMESTAMP_NOT_FINITE_def DT_NOBEGIN_def
      DT_NOEND_def MAX_TIMESTAMP_PRECISION_def TimestampScales_def TimestampOffsets_def
      c_div_def signed_divide_int_def round_half_away_def)

subsection \<open>Overflow of the microseconds in timestamp plus interval\<close>

text \<open>
  C1. The last step adds the microseconds in 64 bits and tests the range afterwards. At the
  greatest valid timestamp and the greatest 64-bit number of microseconds, with no months
  and no days, the sum does not fit 64 bits, wraps around to a valid timestamp, and is
  returned without an error, whatever the date and time routines do.
\<close>

theorem pg_timestamp_pl_interval_wraps_high:
  "\<not> TIMESTAMP_NOT_FINITE 9223371331199999999 \<and>
   IS_VALID_TIMESTAMP 9223371331199999999 \<and>
   pg_timestamp_pl_interval lib 9223371331199999999
       \<lparr>time = 9223372036854775807, day = 0, month = 0\<rparr>
     = Inr (- 705654775810) \<and>
   sint (9223371331199999999 :: int64) + sint (9223372036854775807 :: int64)
     = 18446743368054775806 \<and>
   \<not> fits_signed 64 18446743368054775806"
  by (simp add: pg_timestamp_pl_interval_def TIMESTAMP_NOT_FINITE_def DT_NOBEGIN_def DT_NOEND_def
      IS_VALID_TIMESTAMP_def MIN_TIMESTAMP_def END_TIMESTAMP_def fits_signed_def)

text \<open>
  C2. The third step, adding the microseconds, does not raise an error on every overflow:
  at the least valid timestamp and the least 64-bit number of microseconds, with no months
  and no days, the sum wraps around to a valid timestamp that is returned.
\<close>

theorem pg_timestamp_pl_interval_wraps_low:
  "\<not> TIMESTAMP_NOT_FINITE (- 211813488000000000) \<and>
   IS_VALID_TIMESTAMP (- 211813488000000000) \<and>
   pg_timestamp_pl_interval lib (- 211813488000000000)
       \<lparr>time = - 9223372036854775808, day = 0, month = 0\<rparr>
     = Inr 9011558548854775808 \<and>
   sint (- 211813488000000000 :: int64) + sint (- 9223372036854775808 :: int64)
     = - 9435185524854775808 \<and>
   \<not> fits_signed 64 (- 9435185524854775808)"
  by (simp add: pg_timestamp_pl_interval_def TIMESTAMP_NOT_FINITE_def DT_NOBEGIN_def DT_NOEND_def
      IS_VALID_TIMESTAMP_def MIN_TIMESTAMP_def END_TIMESTAMP_def fits_signed_def)

end
